theory Spec2Isabelle
  imports Main
begin

section \<open>Fallback seat generators\<close>

text \<open>
  The two helper functions \<open>generateGenericSeatNumbers\<close> and
  \<open>generateCommonSeatPatterns\<close> of the API test suite. Their argument is a
  JavaScript number used as a loop bound; it is modelled as a natural number (for a negative
  bound, as for \<open>0\<close>, the loop body never runs). Arithmetic on the loop index is exact for
  every length an array can have.
\<close>

text \<open>
  The template literals \<^verbatim>\<open>`${row}${number}`\<close> and \<^verbatim>\<open>`S${i + 1}`\<close> render a positive
  integer in decimal, most significant digit first, without leading zeros.
\<close>

definition digitChar :: "nat \<Rightarrow> char" where
  "digitChar d = char_of (48 + d)"

fun numberToString :: "nat \<Rightarrow> string" where
  "numberToString n =
     (if n < 10 then [digitChar n] else numberToString (n div 10) @ [digitChar (n mod 10)])"

definition rows :: "string list" where
  "rows = [''A'', ''B'', ''C'', ''D'', ''E'', ''F'']"

text \<open>The body of the \<open>for\<close> loop of \<open>generateGenericSeatNumbers\<close> at index \<open>i\<close>.\<close>

definition genericSeat :: "nat \<Rightarrow> string" where
  "genericSeat i =
     (let row = rows ! (i mod length rows);
          number = i div length rows + 1
      in row @ numberToString number)"

function generateGenericSeatNumbers_loop :: "nat \<Rightarrow> nat \<Rightarrow> string list \<Rightarrow> string list" where
  "generateGenericSeatNumbers_loop i count seats =
     (if i < count then generateGenericSeatNumbers_loop (i + 1) count (seats @ [genericSeat i])
      else seats)"
  by pat_completeness auto
termination
  by (relation "measure (\<lambda>(i, count, seats). count - i)") auto

definition generateGenericSeatNumbers :: "nat \<Rightarrow> string list" where
  "generateGenericSeatNumbers count = generateGenericSeatNumbers_loop 0 count []"

definition commonPatterns :: "string list list" where
  "commonPatterns =
     [[''1A'', ''1B'', ''1C'', ''1D'', ''1E'', ''1F''],
      [''2A'', ''2B'', ''2C'', ''2D'', ''2E'', ''2F''],
      [''3A'', ''3B'', ''3C'', ''3D'', ''3E'', ''3F''],
      [''A1'', ''A2'', ''A3'', ''A4'', ''A5'', ''A6''],
      [''B1'', ''B2'', ''B3'', ''B4'', ''B5'', ''B6''],
      [''S1'', ''S2'', ''S3'', ''S4'', ''S5'', ''S6'']]"

text \<open>
  The loop of \<open>generateCommonSeatPatterns\<close>: the state is the index \<open>i\<close>, the mutable
  \<open>patternIndex\<close> and the array \<open>seats\<close>.
\<close>

function generateCommonSeatPatterns_loop ::
  "nat \<Rightarrow> nat \<Rightarrow> nat \<Rightarrow> string list \<Rightarrow> string list" where
  "generateCommonSeatPatterns_loop i count patternIndex seats =
     (if i < count then
        (if patternIndex < length commonPatterns then
           (let pattern = commonPatterns ! patternIndex in
            generateCommonSeatPatterns_loop (i + 1) count
              (if (i + 1) mod length pattern = 0 then patternIndex + 1 else patternIndex)
              (seats @ [pattern ! (i mod length pattern)]))
         else
           generateCommonSeatPatterns_loop (i + 1) count patternIndex
             (seats @ [''S'' @ numberToString (i + 1)]))
      else seats)"
  by pat_completeness auto
termination
  by (relation "measure (\<lambda>(i, count, patternIndex, seats). count - i)") auto

definition generateCommonSeatPatterns :: "nat \<Rightarrow> string list" where
  "generateCommonSeatPatterns count = take count (generateCommonSeatPatterns_loop 0 count 0 [])"


text \<open>
  The closed form of the \<open>i\<close>-th identifier of \<open>generateCommonSeatPatterns\<close>: the
  templates walked in order, then \<open>S\<close> followed by the one-based position. It is what the
  loop is compared with.
\<close>

definition commonSeat :: "nat \<Rightarrow> string" where
  "commonSeat i =
     (if i < length (concat commonPatterns) then concat commonPatterns ! i
      else ''S'' @ numberToString (i + 1))"


subsection \<open>Seat identifier patterns\<close>

text \<open>
  Character classes of the regular expressions over seat identifiers, by character code:
  \<open>[A-F]\<close>, \<open>[0-9]\<close> and \<open>[1-9]\<close>.
\<close>

definition isRowLetter :: "char \<Rightarrow> bool" where
  "isRowLetter c = (65 \<le> (of_char c :: nat) \<and> (of_char c :: nat) \<le> 70)"
definition isDigit :: "char \<Rightarrow> bool" where
  "isDigit c = (48 \<le> (of_char c :: nat) \<and> (of_char c :: nat) \<le> 57)"
definition isDigit19 :: "char \<Rightarrow> bool" where
  "isDigit19 c = (49 \<le> (of_char c :: nat) \<and> (of_char c :: nat) \<le> 57)"

text \<open>
  \<open>matchesSpecPattern\<close> is a whole-string match of \<open>[A-F][1-9]+\<close>, the pattern the
  specification gives; \<open>matchesSeatPattern\<close> is a whole-string match of
  \<open>[A-F][1-9][0-9]*\<close>, a row letter followed by a decimal numeral without leading zero.
\<close>

fun matchesSpecPattern :: "string \<Rightarrow> bool" where
  "matchesSpecPattern [] = False"
| "matchesSpecPattern (c # ds) = (isRowLetter c \<and> ds \<noteq> [] \<and> list_all isDigit19 ds)"

fun matchesSeatPattern :: "string \<Rightarrow> bool" where
  "matchesSeatPattern (c # d # ds) = (isRowLetter c \<and> isDigit19 d \<and> list_all isDigit ds)"
| "matchesSeatPattern _ = False"


section \<open>Configuration loader\<close>

text \<open>
  \<open>process.env\<close> maps a variable name to its value; a variable that is not set reads as
  \<open>undefined\<close>, here \<open>None\<close>. The operator \<open>!\<close> on such a value is true for
  \<open>undefined\<close> and for the empty string.
\<close>

type_synonym env = "string \<rightharpoonup> string"

definition falsy :: "string option \<Rightarrow> bool" where
  "falsy v = (case v of None \<Rightarrow> True | Some s \<Rightarrow> s = [])"

text \<open>
  The numbers that \<open>parseInt\<close> returns: \<open>NaN\<close>, an integer, or an infinity when the
  integer read is beyond the range of a double. Both zeros are \<open>Num 0\<close>. A finite value
  is kept exact: rounding to the nearest double, which starts above \<open>2^53\<close>, changes
  neither its sign nor whether it is zero.
\<close>

datatype number = NaN | Num int | Infinity | MinusInfinity

text \<open>
  \<open>x <= 0\<close> on numbers: every comparison with \<open>NaN\<close> is false.
\<close>

fun le_zero :: "number \<Rightarrow> bool" where
  "le_zero NaN = False"
| "le_zero (Num n) = (n \<le> 0)"
| "le_zero Infinity = False"
| "le_zero MinusInfinity = True"

text \<open>
  The conversion of a mathematical integer to a number: a magnitude of at least
  \<open>2^1024 - 2^970\<close>, the midpoint between the largest double and \<open>2^1024\<close>, rounds to
  an infinity.
\<close>

definition toNumber :: "int \<Rightarrow> number" where
  "toNumber n =
     (if 2 ^ 1024 - 2 ^ 970 \<le> n then Infinity
      else if n \<le> - (2 ^ 1024 - 2 ^ 970) then MinusInfinity
      else Num n)"

text \<open>\<open>String.prototype.includes\<close> and \<open>startsWith\<close>.\<close>

fun startsWith :: "string \<Rightarrow> string \<Rightarrow> bool" where
  "startsWith s [] = True"
| "startsWith [] (p # ps) = False"
| "startsWith (c # cs) (p # ps) = (c = p \<and> startsWith cs ps)"

fun includes_str :: "string \<Rightarrow> string \<Rightarrow> bool" where
  "includes_str [] sub = (sub = [])"
| "includes_str (c # cs) sub = (startsWith (c # cs) sub \<or> includes_str cs sub)"

text \<open>
  The built-in \<open>parseInt\<close> called with one argument, after the language standard: skip
  leading white space, read an optional sign, switch to radix 16 after \<open>0x\<close> or \<open>0X\<close>,
  read the longest run of digits of the radix, and return \<open>NaN\<close> when that run is empty.
  Whatever follows the digits is ignored. A character is a code unit below 256, and white
  space is the part of the standard's set below 256: tab, line feed, vertical tab, form feed,
  carriage return, space and the no-break space.
\<close>

definition isWhiteSpace :: "char \<Rightarrow> bool" where
  "isWhiteSpace c = ((of_char c :: nat) \<in> {9, 10, 11, 12, 13, 32, 160})"

definition digitValue :: "char \<Rightarrow> nat option" where
  "digitValue c =
     (let k = (of_char c :: nat) in
      if 48 \<le> k \<and> k \<le> 57 then Some (k - 48)
      else if 97 \<le> k \<and> k \<le> 122 then Some (k - 87)
      else if 65 \<le> k \<and> k \<le> 90 then Some (k - 55)
      else None)"

definition isRadixDigit :: "nat \<Rightarrow> char \<Rightarrow> bool" where
  "isRadixDigit R c = (case digitValue c of None \<Rightarrow> False | Some v \<Rightarrow> v < R)"

definition digitsValue :: "nat \<Rightarrow> string \<Rightarrow> int" where
  "digitsValue R Z =
     foldl (\<lambda>acc c. acc * int R + (case digitValue c of None \<Rightarrow> 0 | Some v \<Rightarrow> int v)) 0 Z"

definition parseInt :: "string \<Rightarrow> number" where
  "parseInt string =
     (let S0 = dropWhile isWhiteSpace string;
          sign = (case S0 of c # _ \<Rightarrow> (if c = CHR ''-'' then - 1 else 1) | [] \<Rightarrow> (1::int));
          S1 = (case S0 of c # cs \<Rightarrow> (if c = CHR ''+'' \<or> c = CHR ''-'' then cs else S0) | [] \<Rightarrow> S0);
          stripPrefix = (startsWith S1 ''0x'' \<or> startsWith S1 ''0X'');
          R = (if stripPrefix then 16 else 10);
          S2 = (if stripPrefix then drop 2 S1 else S1);
          Z = takeWhile (isRadixDigit R) S2
      in if Z = [] then NaN else toNumber (sign * digitsValue R Z))"

text \<open>\<open>String.prototype.split\<close> with a one-character separator.\<close>

fun split_str :: "char \<Rightarrow> string \<Rightarrow> string list" where
  "split_str sep [] = [[]]"
| "split_str sep (c # cs) =
     (if c = sep then [] # split_str sep cs
      else (case split_str sep cs of w # ws \<Rightarrow> (c # w) # ws | [] \<Rightarrow> [[c]]))"

datatype error = Error string

record bookingPrefs =
  trainName :: "string option"
  preferredSeats :: "string list"
  numberOfSeats :: number

definition missingBookingMessage :: string where
  "missingBookingMessage = ''Missing required booking environment variables. Please ensure TRAIN_NAME, PREFERRED_SEATS, and NUMBER_OF_SEATS are set in .env file''"

definition seatCountMessage :: string where
  "seatCountMessage = ''NUMBER_OF_SEATS must be a positive number''"

definition getBookingPreferences :: "env \<Rightarrow> error + bookingPrefs" where
  "getBookingPreferences env =
     (let bookingPrefs = \<lparr>
            trainName = env ''TRAIN_NAME'',
            preferredSeats =
              (case env ''PREFERRED_SEATS'' of
                 None \<Rightarrow> []
               | Some s \<Rightarrow> if s = [] then [] else split_str CHR '','' s),
            numberOfSeats =
              (case env ''NUMBER_OF_SEATS'' of
                 None \<Rightarrow> Num 0
               | Some s \<Rightarrow> if s = [] then Num 0 else parseInt s) \<rparr>
      in if falsy (trainName bookingPrefs) \<or> falsy (env ''PREFERRED_SEATS'')
            \<or> falsy (env ''NUMBER_OF_SEATS'')
         then Inl (Error missingBookingMessage)
         else if le_zero (numberOfSeats bookingPrefs)
         then Inl (Error seatCountMessage)
         else Inr bookingPrefs)"

section \<open>Password entry during login\<close>

text \<open>
  The password block of the UI booking test. For one located field, the test clears it,
  enters the password with one input method, reads the value back, and goes on to the next
  method while the length read back differs from the password's length. The four methods, in
  the order of the source: \<open>pressSequentially\<close> (Method 1), \<open>fill\<close> (Method 2),
  typing each character through \<open>page.keyboard\<close> (Method 3) and pasting from the
  clipboard (Method 4).

  The page is a parameter: \<open>readBack m\<close> is what \<open>inputValue\<close> returns after the field
  was cleared and method \<open>m\<close> applied, or \<open>None\<close> when one of these calls throws.
\<close>

datatype input_method = PressSequentially | Fill | KeyboardPerChar | ClipboardPaste

text \<open>
  One \<open>if (enteredValue.length !== password.length)\<close> block: the state is the list of
  methods used so far and the value read back (\<open>None\<close> once a call has thrown).
\<close>

definition escalate ::
  "(input_method \<Rightarrow> string option) \<Rightarrow> string \<Rightarrow> input_method \<Rightarrow>
   input_method list \<times> string option \<Rightarrow> input_method list \<times> string option" where
  "escalate readBack password m st =
     (case st of
        (tried, None) \<Rightarrow> (tried, None)
      | (tried, Some enteredValue) \<Rightarrow>
          if length enteredValue \<noteq> length password then (tried @ [m], readBack m)
          else (tried, Some enteredValue))"

definition fillPasswordField ::
  "(input_method \<Rightarrow> string option) \<Rightarrow> string \<Rightarrow> input_method list \<times> string option" where
  "fillPasswordField readBack password =
     escalate readBack password ClipboardPaste
       (escalate readBack password KeyboardPerChar
          (escalate readBack password Fill
             ([PressSequentially], readBack PressSequentially)))"

text \<open>
  The loop over \<open>passwordSelectors\<close>: a selector whose field is not visible is skipped; an
  exception is caught and the next selector is tried; otherwise \<open>passwordFilled\<close> is set and
  the loop ends, whether or not the final length matches. The result is \<open>passwordFilled\<close>
  and the input methods used, each with its selector.
\<close>

definition passwordSelectors :: "string list" where
  "passwordSelectors =
     [''input[type=\"password\"]'', ''input[placeholder*=\"Password\"]'',
      ''input[name*=\"password\"]'']"

fun fillPassword ::
  "(string \<Rightarrow> bool option) \<Rightarrow> (string \<Rightarrow> input_method \<Rightarrow> string option) \<Rightarrow> string \<Rightarrow>
   string list \<Rightarrow> bool \<times> (string \<times> input_method) list" where
  "fillPassword isVisible readBack password [] = (False, [])"
| "fillPassword isVisible readBack password (selector # rest) =
     (case isVisible selector of
        Some True \<Rightarrow>
          (case fillPasswordField (readBack selector) password of
             (tried, Some enteredValue) \<Rightarrow> (True, map (Pair selector) tried)
           | (tried, None) \<Rightarrow>
               (case fillPassword isVisible readBack password rest of
                  (passwordFilled, later) \<Rightarrow> (passwordFilled, map (Pair selector) tried @ later)))
      | _ \<Rightarrow> fillPassword isVisible readBack password rest)"

text \<open>
  The order of escalation in the source, and the condition under which the escalation goes on
  after a method: the call returned and the length read back is not the password's. The
  order the specification gives is direct set, simulated keystrokes, clipboard paste.
\<close>

definition methodOrder :: "input_method list" where
  "methodOrder = [PressSequentially, Fill, KeyboardPerChar, ClipboardPaste]"

definition continuesAfter :: "(input_method \<Rightarrow> string option) \<Rightarrow> string \<Rightarrow> input_method \<Rightarrow> bool" where
  "continuesAfter readBack password m =
     (case readBack m of None \<Rightarrow> False | Some v \<Rightarrow> length v \<noteq> length password)"

definition specMethodOrder :: "input_method list" where
  "specMethodOrder = [Fill, PressSequentially, ClipboardPaste]"

text \<open>
  What one selector contributes to the loop over \<open>passwordSelectors\<close>: whether the loop
  ends at it (its field is visible and no call throws), and the input methods used on it
  (none when its field is not visible).
\<close>

definition selectorFills ::
  "(string \<Rightarrow> bool option) \<Rightarrow> (string \<Rightarrow> input_method \<Rightarrow> string option) \<Rightarrow> string \<Rightarrow>
   string \<Rightarrow> bool" where
  "selectorFills isVisible readBack password selector =
     (isVisible selector = Some True \<and>
      snd (fillPasswordField (readBack selector) password) \<noteq> None)"

definition selectorMethods ::
  "(string \<Rightarrow> bool option) \<Rightarrow> (string \<Rightarrow> input_method \<Rightarrow> string option) \<Rightarrow> string \<Rightarrow>
   string \<Rightarrow> (string \<times> input_method) list" where
  "selectorMethods isVisible readBack password selector =
     (if isVisible selector = Some True
      then map (Pair selector) (fst (fillPasswordField (readBack selector) password))
      else [])"

section \<open>Booking initiation in the real booking flow\<close>

text \<open>
  Step 4 of the test \<open>should perform REAL ticket booking with OTP handling\<close> and the two
  stages after it. What the search page shows is a parameter: whether the heading of the
  configured train and the booking button of the configured class are visible, how many
  booking buttons the three locators count, and whether a click (with the wait for the page
  load that follows it) throws. The statements that only log or take a screenshot are left
  out.
\<close>

datatype clickTarget =
  ClassBookButton | FirstBookingButton | ConfiguredClassButton | OtherClassButton string

record searchPage =
  trainHeadingVisible :: bool
  classBookButtonVisible :: bool
  allButtonCount :: nat
  buttonCount :: nat
  classButtonCount :: "string \<Rightarrow> nat"
  click :: "clickTarget \<Rightarrow> error option"

definition otherClasses :: "string list" where
  "otherClasses = [''SNIGDHA'', ''AC_S'', ''SHOVAN'', ''FIRST_SEAT'']"

definition noOptionsMessage :: string where
  "noOptionsMessage = ''No booking options found for any class. Check date and route availability.''"

definition notInitiatedMessage :: string where
  "notInitiatedMessage = ''Could not initiate booking''"

text \<open>
  A click followed by \<open>bookingInitiated = true\<close>: an exception leaves the \<open>try\<close> block.
\<close>

definition clickToBook :: "searchPage \<Rightarrow> clickTarget \<Rightarrow> error + bool" where
  "clickToBook page target = (case click page target of Some e \<Rightarrow> Inl e | None \<Rightarrow> Inr True)"

text \<open>
  The loop over \<open>otherClasses\<close>: the first class with a booking button is clicked and the
  loop ends; the result is \<open>bookingInitiated\<close>.
\<close>

fun tryOtherClasses :: "searchPage \<Rightarrow> string list \<Rightarrow> error + bool" where
  "tryOtherClasses page [] = Inr False"
| "tryOtherClasses page (className # rest) =
     (if classButtonCount page className > 0 then clickToBook page (OtherClassButton className)
      else tryOtherClasses page rest)"

text \<open>Step 4: the value of \<open>bookingInitiated\<close> at its end, or the error thrown in it.\<close>

definition initiateBooking :: "searchPage \<Rightarrow> error + bool" where
  "initiateBooking page =
     (if trainHeadingVisible page then
        (if classBookButtonVisible page then clickToBook page ClassBookButton else Inr False)
      else if allButtonCount page > 0 then clickToBook page FirstBookingButton
      else if buttonCount page > 0 then clickToBook page ConfiguredClassButton
      else
        (case tryOtherClasses page otherClasses of
           Inl e \<Rightarrow> Inl e
         | Inr bookingInitiated \<Rightarrow>
             if bookingInitiated then Inr True else Inl (Error noOptionsMessage)))"

text \<open>
  The rest of the \<open>try\<close> block. \<open>handleCoachSelection\<close> and \<open>handleSeatSelection\<close> are
  parameters: \<open>None\<close> when the call returns, \<open>Some e\<close> when it throws \<open>e\<close>. The
  \<open>catch\<close> block throws the error again. The result is the outcome of the test and the
  stages that were started, in order.
\<close>

datatype stage = CoachSelection | SeatSelection

definition realBooking ::
  "searchPage \<Rightarrow> error option \<Rightarrow> error option \<Rightarrow> (error + unit) \<times> stage list" where
  "realBooking page handleCoachSelection handleSeatSelection =
     (case initiateBooking page of
        Inl e \<Rightarrow> (Inl e, [])
      | Inr bookingInitiated \<Rightarrow>
          if bookingInitiated then
            (case handleCoachSelection of
               Some e \<Rightarrow> (Inl e, [CoachSelection])
             | None \<Rightarrow>
                 (case handleSeatSelection of
                    Some e \<Rightarrow> (Inl e, [CoachSelection, SeatSelection])
                  | None \<Rightarrow> (Inr (), [CoachSelection, SeatSelection])))
          else (Inl (Error notInitiatedMessage), []))"

text \<open>No booking button is found on the page, so that no click is attempted.\<close>

definition noBookingButton :: "searchPage \<Rightarrow> bool" where
  "noBookingButton page =
     (if trainHeadingVisible page then \<not> classBookButtonVisible page
      else allButtonCount page = 0 \<and> buttonCount page = 0 \<and>
           list_all (\<lambda>className. classButtonCount page className = 0) otherClasses)"

section \<open>Waiting for the manual one-time passcode\<close>

text \<open>
  The polling loop of each of the two functions. Time is the number of milliseconds since \<open>startTime\<close>, kept by
  the model: a visibility probe takes no time (\<open>isVisible\<close> does not wait) and
  \<open>waitForTimeout(2000)\<close> takes 2000 ms, so that the polls happen at 0, 2000, 4000, ...
  The page is a parameter: which locators are visible and what the URL is, at each time.
\<close>

record otpPage =
  visibleAt :: "nat \<Rightarrow> string \<Rightarrow> bool"
  urlAt :: "nat \<Rightarrow> string"
  otpFieldVisibleAt :: "nat \<Rightarrow> bool"

datatype waitOutcome =
  Success string nat
| Proceeded nat
| TimedOut nat

definition seatSuccessIndicators :: "string list" where
  "seatSuccessIndicators =
     [''text=Success'', ''text=Confirmed'', ''text=Booked'', ''text=Ticket'', ''text=PNR'',
      ''text=Booking Confirmed'']"

definition paymentSuccessIndicators :: "string list" where
  "paymentSuccessIndicators =
     [''text=Success'', ''text=Confirmed'', ''text=Booked'', ''text=Ticket'', ''text=PNR'']"

definition seatMaxWaitTime :: nat where
  "seatMaxWaitTime = 10 * 60 * 1000"

definition paymentMaxWaitTime :: nat where
  "paymentMaxWaitTime = 5 * 60 * 1000"

text \<open>
  The \<open>while\<close> loop of \<open>handleSeatSelection\<close>, entered at elapsed time \<open>t\<close>:
  \<open>Success\<close> with the indicator found and the time, or \<open>TimedOut\<close> with the time at
  which the loop condition failed.
\<close>

function handleSeatSelection_wait :: "otpPage \<Rightarrow> nat \<Rightarrow> waitOutcome" where
  "handleSeatSelection_wait page t =
     (if t < seatMaxWaitTime then
        (case find (visibleAt page t) seatSuccessIndicators of
           Some indicator \<Rightarrow> Success indicator t
         | None \<Rightarrow> handleSeatSelection_wait page (t + 2000))
      else TimedOut t)"
  by pat_completeness auto
termination
  by (relation "measure (\<lambda>(page, t). seatMaxWaitTime - t)") auto

text \<open>
  The \<open>while\<close> loop of \<open>handlePaymentAndOTP\<close>. Before the success indicators it tests
  whether the URL no longer contains \<open>otp\<close> and the passcode field is no longer visible
  (\<open>otpEntered\<close>), and then leaves the loop (\<open>Proceeded\<close>).
\<close>

definition otpEntered :: "otpPage \<Rightarrow> nat \<Rightarrow> bool" where
  "otpEntered page t = (\<not> includes_str (urlAt page t) ''otp'' \<and> \<not> otpFieldVisibleAt page t)"

function handlePaymentAndOTP_wait :: "otpPage \<Rightarrow> nat \<Rightarrow> waitOutcome" where
  "handlePaymentAndOTP_wait page t =
     (if t < paymentMaxWaitTime then
        (if otpEntered page t then Proceeded t
         else
           (case find (visibleAt page t) paymentSuccessIndicators of
              Some indicator \<Rightarrow> Success indicator t
            | None \<Rightarrow> handlePaymentAndOTP_wait page (t + 2000)))
      else TimedOut t)"
  by pat_completeness auto
termination
  by (relation "measure (\<lambda>(page, t). paymentMaxWaitTime - t)") auto

section \<open>Properties of the seat generators\<close>

declare numberToString.simps [simp del]
declare generateGenericSeatNumbers_loop.simps [simp del]
declare generateCommonSeatPatterns_loop.simps [simp del]

lemma of_char_digitChar: "d < 10 \<Longrightarrow> (of_char (digitChar d) :: nat) = 48 + d"
  by (simp add: digitChar_def)

lemma digitChar_inj: "a < 10 \<Longrightarrow> b < 10 \<Longrightarrow> digitChar a = digitChar b \<Longrightarrow> a = b"
proof -
  assume a: "a < 10" and b: "b < 10" and e: "digitChar a = digitChar b"
  from e have "(of_char (digitChar a) :: nat) = of_char (digitChar b)" by simp
  with a b show "a = b" by (simp add: of_char_digitChar)
qed

lemma numberToString_nonempty: "numberToString n \<noteq> []"
  by (subst numberToString.simps) simp

lemma numberToString_nonempty': "[] \<noteq> numberToString n"
  using numberToString_nonempty [of n] by simp

lemma numberToString_small: "n < 10 \<Longrightarrow> numberToString n = [digitChar n]"
  by (subst numberToString.simps) simp

lemma numberToString_big:
  "\<not> n < 10 \<Longrightarrow> numberToString n = numberToString (n div 10) @ [digitChar (n mod 10)]"
  by (subst numberToString.simps) simp

lemma numberToString_inj: "numberToString n = numberToString m \<Longrightarrow> n = m"
proof (induction n arbitrary: m rule: numberToString.induct)
  case (1 n)
  note eq = \<open>numberToString n = numberToString m\<close>
  show ?case
  proof (cases "n < 10")
    case nT: True
    show ?thesis
    proof (cases "m < 10")
      case mT: True
      with nT eq show ?thesis
        by (simp add: numberToString_small digitChar_inj)
    next
      case mF: False
      with nT eq show ?thesis
        by (simp add: numberToString_small numberToString_big numberToString_nonempty
          numberToString_nonempty')
    qed
  next
    case nF: False
    show ?thesis
    proof (cases "m < 10")
      case mT: True
      with nF eq show ?thesis
        by (simp add: numberToString_small numberToString_big numberToString_nonempty)
    next
      case mF: False
      from nF mF eq have e1: "numberToString (n div 10) = numberToString (m div 10)"
        and e2: "digitChar (n mod 10) = digitChar (m mod 10)"
        by (simp_all add: numberToString_big)
      from 1(1)[OF nF e1] have d: "n div 10 = m div 10" .
      from e2 have r: "n mod 10 = m mod 10" by (simp add: digitChar_inj)
      from d r show ?thesis by (metis div_mult_mod_eq)
    qed
  qed
qed

lemma numberToString_digits: "list_all isDigit (numberToString n)"
proof (induction n rule: numberToString.induct)
  case (1 n)
  show ?case
  proof (cases "n < 10")
    case True
    then show ?thesis by (simp add: numberToString_small isDigit_def of_char_digitChar)
  next
    case False
    with 1 show ?thesis by (simp add: numberToString_big isDigit_def of_char_digitChar)
  qed
qed

lemma numberToString_hd: "0 < n \<Longrightarrow> isDigit19 (hd (numberToString n))"
proof (induction n rule: numberToString.induct)
  case (1 n)
  show ?case
  proof (cases "n < 10")
    case True
    with 1(2) show ?thesis by (simp add: numberToString_small isDigit19_def of_char_digitChar)
  next
    case False
    then have "0 < n div 10" by simp
    with 1(1)[OF False] have "isDigit19 (hd (numberToString (n div 10)))" by simp
    with False show ?thesis by (simp add: numberToString_big numberToString_nonempty)
  qed
qed

lemma generic_loop_eq:
  "i \<le> count \<Longrightarrow>
   generateGenericSeatNumbers_loop i count seats = seats @ map genericSeat [i..<count]"
proof (induction i count seats rule: generateGenericSeatNumbers_loop.induct)
  case (1 i count seats)
  show ?case
  proof (cases "i < count")
    case True
    then have "generateGenericSeatNumbers_loop i count seats =
        generateGenericSeatNumbers_loop (i + 1) count (seats @ [genericSeat i])"
      by (subst generateGenericSeatNumbers_loop.simps) simp
    also from True have "\<dots> = (seats @ [genericSeat i]) @ map genericSeat [i + 1..<count]"
      by (intro 1(1)) simp_all
    also from True have "\<dots> = seats @ map genericSeat [i..<count]"
      by (simp add: upt_conv_Cons)
    finally show ?thesis .
  next
    case False
    with 1(2) show ?thesis
      by (subst generateGenericSeatNumbers_loop.simps) simp
  qed
qed

lemma generic_eq_map: "generateGenericSeatNumbers count = map genericSeat [0..<count]"
  by (simp add: generateGenericSeatNumbers_def generic_loop_eq)


lemma rows_nth: "k < 6 \<Longrightarrow> rows ! k = [''ABCDEF'' ! k]"
proof -
  assume "k < 6"
  then have "k = 0 \<or> k = 1 \<or> k = 2 \<or> k = 3 \<or> k = 4 \<or> k = 5" by arith
  then show ?thesis by (auto simp: rows_def)
qed

lemma length_rows: "length rows = 6"
  by (simp add: rows_def)

lemma genericSeat_eq: "genericSeat i = (''ABCDEF'' ! (i mod 6)) # numberToString (i div 6 + 1)"
  by (simp add: genericSeat_def length_rows rows_nth)

lemma genericSeat_inj: "genericSeat i = genericSeat j \<Longrightarrow> i = j"
proof -
  assume e: "genericSeat i = genericSeat j"
  then have h: "''ABCDEF'' ! (i mod 6) = ''ABCDEF'' ! (j mod 6)"
    and t: "numberToString (i div 6 + 1) = numberToString (j div 6 + 1)"
    by (simp_all add: genericSeat_eq)
  have d: "distinct ''ABCDEF''" by simp
  have "i mod 6 < length ''ABCDEF''" "j mod 6 < length ''ABCDEF''" by simp_all
  with d h have m: "i mod 6 = j mod 6" by (simp only: nth_eq_iff_index_eq)
  from t have "i div 6 + 1 = j div 6 + 1" by (rule numberToString_inj)
  then have "i div 6 = j div 6" by simp
  with m show "i = j" by (metis div_mult_mod_eq)
qed

lemma rowLetter_nth: "k < 6 \<Longrightarrow> isRowLetter (''ABCDEF'' ! k)"
proof -
  assume "k < 6"
  then have "k = 0 \<or> k = 1 \<or> k = 2 \<or> k = 3 \<or> k = 4 \<or> k = 5" by arith
  then show ?thesis by (auto simp: isRowLetter_def)
qed

lemma genericSeat_matchesSpec: "i < 54 \<Longrightarrow> matchesSpecPattern (genericSeat i)"
proof -
  assume "i < 54"
  then have s: "i div 6 + 1 < 10" and p: "0 < i div 6 + 1" by simp_all
  from p have "isDigit19 (hd (numberToString (i div 6 + 1)))" by (rule numberToString_hd)
  with s show ?thesis
    by (simp add: genericSeat_eq rowLetter_nth numberToString_small)
qed

lemma concat_nth_uniform:
  "\<forall>xs\<in>set xss. length xs = k \<Longrightarrow> i < k * length xss \<Longrightarrow>
   concat xss ! i = xss ! (i div k) ! (i mod k)"
proof (induction xss arbitrary: i)
  case Nil
  then show ?case by simp
next
  case (Cons xs xss)
  then have lx: "length xs = k" and all: "\<forall>ys\<in>set xss. length ys = k" by simp_all
  show ?case
  proof (cases "i < k")
    case True
    then show ?thesis by (simp add: nth_append lx)
  next
    case False
    then have ge: "k \<le> i" by simp
    from Cons.prems(2) False have k0: "0 < k" by (cases k) simp_all
    from Cons.prems(2) ge have "i - k < k * length xss" by simp
    with all have ih: "concat xss ! (i - k) = xss ! ((i - k) div k) ! ((i - k) mod k)"
      by (rule Cons.IH)
    from ge k0 have d: "i div k = Suc ((i - k) div k)" by (simp add: le_div_geq)
    from ge have m: "i mod k = (i - k) mod k" by (simp add: le_mod_geq)
    from False show ?thesis by (simp add: nth_append lx ih d m)
  qed
qed

lemma length_commonPatterns: "length commonPatterns = 6"
  by (simp add: commonPatterns_def)

lemma commonPatterns_uniform: "\<forall>xs\<in>set commonPatterns. length xs = 6"
  by (simp add: commonPatterns_def)

lemma length_commonPattern: "k < 6 \<Longrightarrow> length (commonPatterns ! k) = 6"
  using commonPatterns_uniform length_commonPatterns by (metis nth_mem)

lemma length_concat_commonPatterns: "length (concat commonPatterns) = 36"
  by (simp add: commonPatterns_def)

lemma common_loop_eq:
  "i \<le> count \<Longrightarrow> patternIndex = min (i div 6) 6 \<Longrightarrow>
   generateCommonSeatPatterns_loop i count patternIndex seats =
     seats @ map commonSeat [i..<count]"
proof (induction i count patternIndex seats rule: generateCommonSeatPatterns_loop.induct)
  case (1 i count patternIndex seats)
  note pi = \<open>patternIndex = min (i div 6) 6\<close>
  show ?case
  proof (cases "i < count")
    case False
    with 1(3) show ?thesis
      by (subst generateCommonSeatPatterns_loop.simps) simp
  next
    case lt: True
    then have upt: "[i..<count] = i # [i + 1..<count]" by (simp add: upt_conv_Cons)
    show ?thesis
    proof (cases "patternIndex < length commonPatterns")
      case inside: True
      with pi have i36: "i < 36" and pidx: "patternIndex = i div 6"
        by (simp_all add: length_commonPatterns min_def split: if_splits)
      from inside have lp: "length (commonPatterns ! patternIndex) = 6"
        by (simp add: length_commonPattern length_commonPatterns)
      let ?p' = "if (i + 1) mod 6 = 0 then patternIndex + 1 else patternIndex"
      from i36 pidx have p': "?p' = min ((i + 1) div 6) 6" by (auto simp: min_def) presburger+
      from i36 have seat: "commonPatterns ! patternIndex ! (i mod 6) = commonSeat i"
        using concat_nth_uniform [OF commonPatterns_uniform, of i]
        by (simp add: commonSeat_def length_concat_commonPatterns length_commonPatterns pidx)
      have "generateCommonSeatPatterns_loop i count patternIndex seats =
          generateCommonSeatPatterns_loop (i + 1) count ?p' (seats @ [commonSeat i])"
        using lt inside by (subst generateCommonSeatPatterns_loop.simps) (simp add: lp seat Let_def)
      also have "\<dots> = (seats @ [commonSeat i]) @ map commonSeat [i + 1..<count]"
        using lt inside p' 1(1) [OF lt inside refl] by (simp add: lp seat)
      finally show ?thesis by (simp add: upt)
    next
      case outside: False
      with pi have i36: "\<not> i < 36" and p6: "patternIndex = 6"
        by (simp_all add: length_commonPatterns min_def split: if_splits)
      from i36 have "6 \<le> (i + 1) div 6" by presburger
      then have p': "patternIndex = min ((i + 1) div 6) 6" by (simp add: p6 min_def)
      from i36 have seat: "commonSeat i = ''S'' @ numberToString (i + 1)"
        by (simp add: commonSeat_def length_concat_commonPatterns)
      have "generateCommonSeatPatterns_loop i count patternIndex seats =
          generateCommonSeatPatterns_loop (i + 1) count patternIndex (seats @ [commonSeat i])"
        using lt outside by (subst generateCommonSeatPatterns_loop.simps) (simp add: seat)
      also have "\<dots> = (seats @ [commonSeat i]) @ map commonSeat [i + 1..<count]"
        using lt p' 1(2) [OF lt outside] by (simp add: seat)
      finally show ?thesis by (simp add: upt)
    qed
  qed
qed

lemma common_eq_map: "generateCommonSeatPatterns count = map commonSeat [0..<count]"
  by (simp add: generateCommonSeatPatterns_def common_loop_eq)


lemma matchesSeatPattern_number:
  "0 < n \<Longrightarrow> isRowLetter c \<Longrightarrow> matchesSeatPattern (c # numberToString n)"
proof -
  assume p: "0 < n" and c: "isRowLetter c"
  obtain d ds where n: "numberToString n = d # ds"
    using numberToString_nonempty [of n] by (cases "numberToString n") auto
  from p have "isDigit19 (hd (numberToString n))" by (rule numberToString_hd)
  moreover have "list_all isDigit (numberToString n)" by (rule numberToString_digits)
  ultimately show ?thesis using c by (simp add: n)
qed

lemma genericSeat_matchesSeat: "matchesSeatPattern (genericSeat i)"
  unfolding genericSeat_eq by (rule matchesSeatPattern_number) (simp_all add: rowLetter_nth)

text \<open>
  Claim C1. For every count of at least one, \<open>generateGenericSeatNumbers\<close> returns
  \<open>count\<close> identifiers, and the identifier at position \<open>i\<close> (from zero) is the
  \<open>(i mod 6)\<close>-th letter of A, B, C, D, E, F followed by \<open>i div 6 + 1\<close> in decimal.
  For 3 the result is A1, B1, C1; for 7 it is A1, B1, C1, D1, E1, F1, A2.
\<close>

theorem generateGenericSeatNumbers_positions:
  "(1 \<le> count \<longrightarrow>
      length (generateGenericSeatNumbers count) = count \<and>
      (\<forall>i<count. generateGenericSeatNumbers count ! i =
         [''A'', ''B'', ''C'', ''D'', ''E'', ''F''] ! (i mod 6) @ numberToString (i div 6 + 1))) \<and>
   generateGenericSeatNumbers 3 = [''A1'', ''B1'', ''C1''] \<and>
   generateGenericSeatNumbers 7 = [''A1'', ''B1'', ''C1'', ''D1'', ''E1'', ''F1'', ''A2'']"
proof (intro conjI impI allI)
  show "length (generateGenericSeatNumbers count) = count"
    by (simp add: generic_eq_map)
next
  fix i assume "i < count"
  then show "generateGenericSeatNumbers count ! i =
      [''A'', ''B'', ''C'', ''D'', ''E'', ''F''] ! (i mod 6) @ numberToString (i div 6 + 1)"
    by (simp add: generic_eq_map genericSeat_def rows_def)
next
  show "generateGenericSeatNumbers 3 = [''A1'', ''B1'', ''C1'']"
    by code_simp
next
  show "generateGenericSeatNumbers 7 = [''A1'', ''B1'', ''C1'', ''D1'', ''E1'', ''F1'', ''A2'']"
    by code_simp
qed

theorem generateGenericSeatNumbers_positions_witness:
  "(1::nat) \<le> 7 \<and> (6::nat) < 7 \<and> length (generateGenericSeatNumbers 7) = 7 \<and>
   generateGenericSeatNumbers 7 ! 6 = ''A2''"
  using generateGenericSeatNumbers_positions [of 7]
  by (simp add: numberToString_small digitChar_def)

text \<open>
  Claim C2. For every count of at least one, \<open>generateCommonSeatPatterns\<close> returns exactly
  \<open>count\<close> identifiers: position \<open>i\<close> holds the \<open>i\<close>-th entry of the six row
  templates 1A..1F, 2A..2F, 3A..3F, A1..A6, B1..B6, S1..S6 laid end to end, and beyond these 36
  entries it holds S followed by the counter \<open>i + 1\<close>. For 5 the result is
  1A, 1B, 1C, 1D, 1E; for 8 it is 1A, 1B, 1C, 1D, 1E, 1F, 2A, 2B.
\<close>

theorem generateCommonSeatPatterns_walk:
  "(1 \<le> count \<longrightarrow>
      length (generateCommonSeatPatterns count) = count \<and>
      (\<forall>i<count. generateCommonSeatPatterns count ! i =
         (if i < length (concat commonPatterns) then concat commonPatterns ! i
          else ''S'' @ numberToString (i + 1)))) \<and>
   concat commonPatterns =
     [''1A'', ''1B'', ''1C'', ''1D'', ''1E'', ''1F'', ''2A'', ''2B'', ''2C'', ''2D'', ''2E'', ''2F'',
      ''3A'', ''3B'', ''3C'', ''3D'', ''3E'', ''3F'', ''A1'', ''A2'', ''A3'', ''A4'', ''A5'', ''A6'',
      ''B1'', ''B2'', ''B3'', ''B4'', ''B5'', ''B6'', ''S1'', ''S2'', ''S3'', ''S4'', ''S5'', ''S6''] \<and>
   generateCommonSeatPatterns 5 = [''1A'', ''1B'', ''1C'', ''1D'', ''1E''] \<and>
   generateCommonSeatPatterns 8 = [''1A'', ''1B'', ''1C'', ''1D'', ''1E'', ''1F'', ''2A'', ''2B'']"
proof (intro conjI impI allI)
  show "length (generateCommonSeatPatterns count) = count"
    by (simp add: common_eq_map)
next
  fix i assume "i < count"
  then show "generateCommonSeatPatterns count ! i =
      (if i < length (concat commonPatterns) then concat commonPatterns ! i
       else ''S'' @ numberToString (i + 1))"
    by (simp add: common_eq_map commonSeat_def)
next
  show "concat commonPatterns =
     [''1A'', ''1B'', ''1C'', ''1D'', ''1E'', ''1F'', ''2A'', ''2B'', ''2C'', ''2D'', ''2E'', ''2F'',
      ''3A'', ''3B'', ''3C'', ''3D'', ''3E'', ''3F'', ''A1'', ''A2'', ''A3'', ''A4'', ''A5'', ''A6'',
      ''B1'', ''B2'', ''B3'', ''B4'', ''B5'', ''B6'', ''S1'', ''S2'', ''S3'', ''S4'', ''S5'', ''S6'']"
    by (simp add: commonPatterns_def)
next
  show "generateCommonSeatPatterns 5 = [''1A'', ''1B'', ''1C'', ''1D'', ''1E'']"
    by code_simp
next
  show "generateCommonSeatPatterns 8 =
      [''1A'', ''1B'', ''1C'', ''1D'', ''1E'', ''1F'', ''2A'', ''2B'']"
    by code_simp
qed

theorem generateCommonSeatPatterns_walk_witness:
  "(1::nat) \<le> 38 \<and> (7::nat) < 38 \<and> (37::nat) < 38 \<and>
   length (generateCommonSeatPatterns 38) = 38 \<and>
   generateCommonSeatPatterns 38 ! 7 = ''2B'' \<and>
   generateCommonSeatPatterns 38 ! 37 = ''S38''"
proof -
  have n: "numberToString 38 = ''38''" by code_simp
  from generateCommonSeatPatterns_walk [of 38]
  have l: "length (generateCommonSeatPatterns 38) = 38"
    and a: "\<forall>i<38. generateCommonSeatPatterns 38 ! i =
         (if i < length (concat commonPatterns) then concat commonPatterns ! i
          else ''S'' @ numberToString (i + 1))"
    by simp_all
  from a have "generateCommonSeatPatterns 38 ! 7 = ''2B''"
    by (simp add: commonPatterns_def)
  moreover from a have "generateCommonSeatPatterns 38 ! 37 = ''S38''"
    by (simp add: commonPatterns_def n)
  ultimately show ?thesis using l by simp
qed

text \<open>
  Claim C3 as stated fails: with 55 seats the identifier at position 54 is A10, whose digit
  \<open>0\<close> is outside \<open>[1-9]\<close>.
\<close>

theorem generateGenericSeatNumbers_spec_pattern_counterexample:
  "(1::nat) \<le> 55 \<and> generateGenericSeatNumbers 55 ! 54 = ''A10'' \<and>
   \<not> matchesSpecPattern (generateGenericSeatNumbers 55 ! 54)"
proof -
  have n: "numberToString 10 = ''10''" by code_simp
  have "generateGenericSeatNumbers 55 ! 54 = ''A10''"
    by (simp add: generic_eq_map genericSeat_eq n)
  then show ?thesis by (simp add: isDigit19_def)
qed

text \<open>
  Claim C3, amended. For every count of at least one, \<open>generateGenericSeatNumbers\<close> returns
  exactly \<open>count\<close> pairwise distinct identifiers, each a row letter A to F followed by a
  decimal numeral without leading zero (\<open>[A-F][1-9][0-9]*\<close>); for counts up to 54 each
  identifier also matches \<open>[A-F][1-9]+\<close>.
\<close>

theorem generateGenericSeatNumbers_distinct_pattern:
  "1 \<le> count \<Longrightarrow>
   length (generateGenericSeatNumbers count) = count \<and>
   distinct (generateGenericSeatNumbers count) \<and>
   (\<forall>s\<in>set (generateGenericSeatNumbers count). matchesSeatPattern s) \<and>
   (count \<le> 54 \<longrightarrow> (\<forall>s\<in>set (generateGenericSeatNumbers count). matchesSpecPattern s))"
  by (auto simp: generic_eq_map distinct_map inj_on_def genericSeat_inj genericSeat_matchesSeat
        genericSeat_matchesSpec)

theorem generateGenericSeatNumbers_distinct_pattern_witness:
  "(1::nat) \<le> 2 \<and> (2::nat) \<le> 54 \<and> generateGenericSeatNumbers 2 = [''A1'', ''B1''] \<and>
   length (generateGenericSeatNumbers 2) = 2 \<and>
   distinct (generateGenericSeatNumbers 2) \<and>
   matchesSeatPattern ''B1'' \<and> matchesSpecPattern ''B1''"
proof -
  have g: "generateGenericSeatNumbers 2 = [''A1'', ''B1'']" by code_simp
  from generateGenericSeatNumbers_distinct_pattern [of 2] show ?thesis
    by (simp add: g)
qed

text \<open>
  Claim C9. Both generators return for every count, with a list of that length; for the
  count 0 both return the empty list. Neither checks its argument.
\<close>

theorem generators_total_at_zero:
  "generateGenericSeatNumbers 0 = [] \<and> generateCommonSeatPatterns 0 = [] \<and>
   length (generateGenericSeatNumbers count) = count \<and>
   length (generateCommonSeatPatterns count) = count"
  by (simp add: generic_eq_map common_eq_map)

text \<open>
  Claim C10. For \<open>m \<le> n\<close>, the first \<open>m\<close> identifiers that either generator
  produces for \<open>n\<close> are the identifiers it produces for \<open>m\<close>.
\<close>

theorem generators_prefix_coherent:
  "m \<le> n \<Longrightarrow>
   take m (generateGenericSeatNumbers n) = generateGenericSeatNumbers m \<and>
   take m (generateCommonSeatPatterns n) = generateCommonSeatPatterns m"
  by (simp add: generic_eq_map common_eq_map take_map)

theorem generators_prefix_coherent_witness:
  "(3::nat) \<le> 7 \<and>
   take 3 (generateGenericSeatNumbers 7) = [''A1'', ''B1'', ''C1''] \<and>
   take 3 (generateCommonSeatPatterns 7) = [''1A'', ''1B'', ''1C'']"
proof -
  have g: "generateGenericSeatNumbers 3 = [''A1'', ''B1'', ''C1'']" by code_simp
  have c: "generateCommonSeatPatterns 3 = [''1A'', ''1B'', ''1C'']" by code_simp
  from generators_prefix_coherent [of 3 7] show ?thesis by (simp add: g c)
qed


section \<open>Properties of the configuration loader\<close>

lemma parseInt_zero: "parseInt ''0'' = Num 0"
  by code_simp

lemma parseInt_minus_one: "parseInt ''-1'' = Num (- 1)"
  by code_simp

lemma parseInt_abc: "parseInt ''abc'' = NaN"
  by code_simp

lemma missing_names_fields:
  "includes_str missingBookingMessage ''TRAIN_NAME''"
  "includes_str missingBookingMessage ''PREFERRED_SEATS''"
  "includes_str missingBookingMessage ''NUMBER_OF_SEATS''"
  by code_simp+

lemma messages_differ: "missingBookingMessage \<noteq> seatCountMessage"
  by (simp add: missingBookingMessage_def seatCountMessage_def)

lemma getBookingPreferences_missing:
  "falsy (env ''TRAIN_NAME'') \<or> falsy (env ''PREFERRED_SEATS'') \<or> falsy (env ''NUMBER_OF_SEATS'')
   \<Longrightarrow> getBookingPreferences env = Inl (Error missingBookingMessage)"
  by (simp add: getBookingPreferences_def Let_def)

lemma getBookingPreferences_present:
  "\<not> falsy (env ''TRAIN_NAME'') \<Longrightarrow> \<not> falsy (env ''PREFERRED_SEATS'') \<Longrightarrow>
   env ''NUMBER_OF_SEATS'' = Some s \<Longrightarrow> s \<noteq> [] \<Longrightarrow>
   getBookingPreferences env =
     (if le_zero (parseInt s) then Inl (Error seatCountMessage)
      else Inr \<lparr>trainName = env ''TRAIN_NAME'',
                preferredSeats = split_str CHR '','' (the (env ''PREFERRED_SEATS'')),
                numberOfSeats = parseInt s\<rparr>)"
  by (auto simp: getBookingPreferences_def Let_def falsy_def split: option.splits)

text \<open>
  Claim C4. \<open>getBookingPreferences\<close> throws whenever \<open>NUMBER_OF_SEATS\<close> is the string
  \<open>0\<close> or \<open>-1\<close>, with the seat-count message once the other two variables are set. When
  \<open>TRAIN_NAME\<close>, \<open>PREFERRED_SEATS\<close> or \<open>NUMBER_OF_SEATS\<close> is absent it throws the
  missing-variables message, which differs from the seat-count message and contains the name
  of the absent variable (the one message lists all three names).
\<close>

theorem getBookingPreferences_rejects:
  "(env ''NUMBER_OF_SEATS'' = Some ''0'' \<or> env ''NUMBER_OF_SEATS'' = Some ''-1'' \<longrightarrow>
      (\<exists>msg. getBookingPreferences env = Inl (Error msg)) \<and>
      (\<not> falsy (env ''TRAIN_NAME'') \<and> \<not> falsy (env ''PREFERRED_SEATS'') \<longrightarrow>
         getBookingPreferences env = Inl (Error seatCountMessage))) \<and>
   (field \<in> {''TRAIN_NAME'', ''PREFERRED_SEATS'', ''NUMBER_OF_SEATS''} \<and> env field = None \<longrightarrow>
      getBookingPreferences env = Inl (Error missingBookingMessage) \<and>
      includes_str missingBookingMessage field) \<and>
   missingBookingMessage \<noteq> seatCountMessage"
proof (intro conjI impI)
  assume n: "env ''NUMBER_OF_SEATS'' = Some ''0'' \<or> env ''NUMBER_OF_SEATS'' = Some ''-1''"
  show "\<exists>msg. getBookingPreferences env = Inl (Error msg)"
  proof (cases "falsy (env ''TRAIN_NAME'') \<or> falsy (env ''PREFERRED_SEATS'')")
    case True
    then show ?thesis using getBookingPreferences_missing [of env] by blast
  next
    case False
    with n show ?thesis
      by (auto simp: getBookingPreferences_present parseInt_zero parseInt_minus_one)
  qed
next
  assume n: "env ''NUMBER_OF_SEATS'' = Some ''0'' \<or> env ''NUMBER_OF_SEATS'' = Some ''-1''"
    and p: "\<not> falsy (env ''TRAIN_NAME'') \<and> \<not> falsy (env ''PREFERRED_SEATS'')"
  then show "getBookingPreferences env = Inl (Error seatCountMessage)"
    by (auto simp: getBookingPreferences_present parseInt_zero parseInt_minus_one)
next
  assume f: "field \<in> {''TRAIN_NAME'', ''PREFERRED_SEATS'', ''NUMBER_OF_SEATS''} \<and> env field = None"
  then have "falsy (env ''TRAIN_NAME'') \<or> falsy (env ''PREFERRED_SEATS'')
      \<or> falsy (env ''NUMBER_OF_SEATS'')"
    by (auto simp: falsy_def)
  then show "getBookingPreferences env = Inl (Error missingBookingMessage)"
    by (rule getBookingPreferences_missing)
next
  assume f: "field \<in> {''TRAIN_NAME'', ''PREFERRED_SEATS'', ''NUMBER_OF_SEATS''} \<and> env field = None"
  then show "includes_str missingBookingMessage field"
    using missing_names_fields by auto
next
  show "missingBookingMessage \<noteq> seatCountMessage" by (rule messages_differ)
qed

theorem getBookingPreferences_rejects_witness:
  "getBookingPreferences
     [''TRAIN_NAME'' \<mapsto> ''PADMA EXPRESS'', ''PREFERRED_SEATS'' \<mapsto> ''A1,A2'',
      ''NUMBER_OF_SEATS'' \<mapsto> ''0''] = Inl (Error seatCountMessage) \<and>
   getBookingPreferences
     [''TRAIN_NAME'' \<mapsto> ''PADMA EXPRESS'', ''PREFERRED_SEATS'' \<mapsto> ''A1,A2'',
      ''NUMBER_OF_SEATS'' \<mapsto> ''-1''] = Inl (Error seatCountMessage) \<and>
   getBookingPreferences
     [''PREFERRED_SEATS'' \<mapsto> ''A1,A2'', ''NUMBER_OF_SEATS'' \<mapsto> ''2''] =
     Inl (Error missingBookingMessage) \<and>
   includes_str missingBookingMessage ''TRAIN_NAME''"
  using
    getBookingPreferences_rejects [of "[''TRAIN_NAME'' \<mapsto> ''PADMA EXPRESS'',
      ''PREFERRED_SEATS'' \<mapsto> ''A1,A2'', ''NUMBER_OF_SEATS'' \<mapsto> ''0'']" "''TRAIN_NAME''"]
    getBookingPreferences_rejects [of "[''TRAIN_NAME'' \<mapsto> ''PADMA EXPRESS'',
      ''PREFERRED_SEATS'' \<mapsto> ''A1,A2'', ''NUMBER_OF_SEATS'' \<mapsto> ''-1'']" "''TRAIN_NAME''"]
    getBookingPreferences_rejects [of "[''PREFERRED_SEATS'' \<mapsto> ''A1,A2'',
      ''NUMBER_OF_SEATS'' \<mapsto> ''2'']" "''TRAIN_NAME''"]
  by (simp add: falsy_def)

text \<open>
  Claim C5. With \<open>NUMBER_OF_SEATS=abc\<close> and the other two variables set,
  \<open>parseInt\<close> yields \<open>NaN\<close>, the test \<open>numberOfSeats <= 0\<close> is false, and
  \<open>getBookingPreferences\<close> returns a preferences object whose seat count is \<open>NaN\<close>
  instead of throwing.
\<close>

theorem getBookingPreferences_accepts_non_numeric:
  "getBookingPreferences
     [''TRAIN_NAME'' \<mapsto> ''PADMA EXPRESS'', ''PREFERRED_SEATS'' \<mapsto> ''A1,A2'',
      ''NUMBER_OF_SEATS'' \<mapsto> ''abc''] =
   Inr \<lparr>trainName = Some ''PADMA EXPRESS'', preferredSeats = [''A1'', ''A2''],
        numberOfSeats = NaN\<rparr>"
  by (simp add: getBookingPreferences_def falsy_def parseInt_abc)


section \<open>Properties of the password entry\<close>

lemma fillPasswordField_methods:
  "fst (fillPasswordField readBack password) =
     takeWhile (continuesAfter readBack password) methodOrder @
     take 1 (dropWhile (continuesAfter readBack password) methodOrder)"
  by (auto simp: fillPasswordField_def escalate_def methodOrder_def continuesAfter_def
      split: option.splits)

lemma fillPasswordField_value:
  "snd (fillPasswordField readBack password) =
     readBack (last (fst (fillPasswordField readBack password)))"
  by (auto simp: fillPasswordField_def escalate_def split: option.splits)

lemma fillPassword_skip:
  "\<not> selectorFills isVisible readBack password selector \<Longrightarrow>
   fillPassword isVisible readBack password (selector # rest) =
     (fst (fillPassword isVisible readBack password rest),
      selectorMethods isVisible readBack password selector @
      snd (fillPassword isVisible readBack password rest))"
proof (cases "isVisible selector = Some True")
  case vis: True
  assume "\<not> selectorFills isVisible readBack password selector"
  with vis have n: "snd (fillPasswordField (readBack selector) password) = None"
    by (simp add: selectorFills_def)
  obtain tried v where f: "fillPasswordField (readBack selector) password = (tried, v)"
    by (cases "fillPasswordField (readBack selector) password")
  with n have v: "v = None" by simp
  show ?thesis
    by (simp add: vis f v selectorMethods_def split: prod.splits)
next
  case nvis: False
  show ?thesis
  proof (cases "isVisible selector")
    case None
    then show ?thesis by (simp add: selectorMethods_def)
  next
    case (Some b)
    with nvis have "b = False" by simp
    with Some show ?thesis by (simp add: selectorMethods_def)
  qed
qed

lemma fillPassword_fill:
  "selectorFills isVisible readBack password selector \<Longrightarrow>
   fillPassword isVisible readBack password (selector # rest) =
     (True, selectorMethods isVisible readBack password selector)"
proof -
  assume a: "selectorFills isVisible readBack password selector"
  then have vis: "isVisible selector = Some True"
    and some: "snd (fillPasswordField (readBack selector) password) \<noteq> None"
    by (simp_all add: selectorFills_def)
  obtain tried v where f: "fillPasswordField (readBack selector) password = (tried, v)"
    by (cases "fillPasswordField (readBack selector) password")
  with some obtain enteredValue where v: "v = Some enteredValue" by auto
  show ?thesis by (simp add: vis f v selectorMethods_def)
qed

lemma fillPassword_selectors:
  "fillPassword isVisible readBack password selectors =
     (list_ex (selectorFills isVisible readBack password) selectors,
      concat (map (selectorMethods isVisible readBack password)
        (takeWhile (Not \<circ> selectorFills isVisible readBack password) selectors @
         take 1 (dropWhile (Not \<circ> selectorFills isVisible readBack password) selectors))))"
proof (induction selectors)
  case Nil
  show ?case by simp
next
  case (Cons selector rest)
  show ?case
  proof (cases "selectorFills isVisible readBack password selector")
    case True
    then show ?thesis by (simp add: fillPassword_fill del: fillPassword.simps)
  next
    case False
    then show ?thesis by (simp add: fillPassword_skip Cons.IH del: fillPassword.simps)
  qed
qed

text \<open>
  Claim C6 as stated fails. On a field that drops the character \<open>#\<close> under
  \<open>pressSequentially\<close> and takes it under \<open>fill\<close>, the methods used are
  \<open>pressSequentially\<close> and then \<open>fill\<close>: simulated keystrokes come before the direct
  set, not after it.
\<close>

theorem fillPasswordField_spec_order_counterexample:
  "fst (fillPasswordField
     (\<lambda>m. if m = PressSequentially then Some ''pass1'' else Some ''pass#1'') ''pass#1'') =
     [PressSequentially, Fill] \<and>
   take 2 specMethodOrder = [Fill, PressSequentially] \<and>
   fst (fillPasswordField
     (\<lambda>m. if m = PressSequentially then Some ''pass1'' else Some ''pass#1'') ''pass#1'') \<noteq>
     take 2 specMethodOrder"
  by (simp add: fillPasswordField_def escalate_def specMethodOrder_def)

text \<open>
  Claim C6, amended. For a located password field the test compares the length of the value
  read back with the length of the password and escalates in the order
  \<open>pressSequentially\<close>, \<open>fill\<close>, per-character keyboard typing, clipboard paste: the
  methods used are those of this order up to and including the first one after which the
  lengths agree (or a call throws), all four when there is none, and the final value is the
  one read back after the last method used. When the field of a selector is visible and no
  call throws, the selector loop ends there with \<open>passwordFilled\<close> set. A selector whose
  field is not visible, or on which a call throws, is left and the next selector is tried:
  the loop runs through the selectors up to and including the first one that fills the
  field, the methods used are those of these selectors in order, and \<open>passwordFilled\<close> is
  set exactly when there is such a selector.
\<close>

theorem fillPasswordField_escalation:
  "fst (fillPasswordField readBack password) =
     takeWhile (continuesAfter readBack password) methodOrder @
     take 1 (dropWhile (continuesAfter readBack password) methodOrder) \<and>
   snd (fillPasswordField readBack password) =
     readBack (last (fst (fillPasswordField readBack password))) \<and>
   methodOrder = [PressSequentially, Fill, KeyboardPerChar, ClipboardPaste] \<and>
   (isVisible selector = Some True \<and> snd (fillPasswordField (readBack' selector) password) \<noteq> None
      \<longrightarrow> fillPassword isVisible readBack' password (selector # rest) =
           (True, map (Pair selector) (fst (fillPasswordField (readBack' selector) password)))) \<and>
   fillPassword isVisible readBack' password selectors =
     (list_ex (selectorFills isVisible readBack' password) selectors,
      concat (map (selectorMethods isVisible readBack' password)
        (takeWhile (Not \<circ> selectorFills isVisible readBack' password) selectors @
         take 1 (dropWhile (Not \<circ> selectorFills isVisible readBack' password) selectors))))"
proof (intro conjI impI)
  show "fst (fillPasswordField readBack password) =
     takeWhile (continuesAfter readBack password) methodOrder @
     take 1 (dropWhile (continuesAfter readBack password) methodOrder)"
    by (rule fillPasswordField_methods)
next
  show "snd (fillPasswordField readBack password) =
     readBack (last (fst (fillPasswordField readBack password)))"
    by (rule fillPasswordField_value)
next
  show "methodOrder = [PressSequentially, Fill, KeyboardPerChar, ClipboardPaste]"
    by (simp add: methodOrder_def)
next
  assume a: "isVisible selector = Some True \<and>
    snd (fillPasswordField (readBack' selector) password) \<noteq> None"
  then have "selectorFills isVisible readBack' password selector"
    by (simp add: selectorFills_def)
  then have "fillPassword isVisible readBack' password (selector # rest) =
      (True, selectorMethods isVisible readBack' password selector)"
    by (rule fillPassword_fill)
  with a show "fillPassword isVisible readBack' password (selector # rest) =
      (True, map (Pair selector) (fst (fillPasswordField (readBack' selector) password)))"
    by (simp add: selectorMethods_def)
next
  show "fillPassword isVisible readBack' password selectors =
     (list_ex (selectorFills isVisible readBack' password) selectors,
      concat (map (selectorMethods isVisible readBack' password)
        (takeWhile (Not \<circ> selectorFills isVisible readBack' password) selectors @
         take 1 (dropWhile (Not \<circ> selectorFills isVisible readBack' password) selectors))))"
    by (rule fillPassword_selectors)
qed

theorem fillPasswordField_escalation_witness:
  "fillPasswordField
     (\<lambda>m. if m = PressSequentially \<or> m = Fill then Some ''pass1'' else Some ''pass#1'') ''pass#1'' =
     ([PressSequentially, Fill, KeyboardPerChar], Some ''pass#1'') \<and>
   fillPassword (\<lambda>s. Some True)
     (\<lambda>s m. if m = PressSequentially \<or> m = Fill then Some ''pass1'' else Some ''pass#1'')
     ''pass#1'' passwordSelectors =
     (True, [(''input[type=\"password\"]'', PressSequentially), (''input[type=\"password\"]'', Fill),
             (''input[type=\"password\"]'', KeyboardPerChar)]) \<and>
   fillPassword (\<lambda>s. Some True)
     (\<lambda>s m. if s = ''input[type=\"password\"]''
            then (if m = PressSequentially then Some ''pass1'' else None)
            else Some ''pass#1'')
     ''pass#1'' passwordSelectors =
     (True, [(''input[type=\"password\"]'', PressSequentially), (''input[type=\"password\"]'', Fill),
             (''input[placeholder*=\"Password\"]'', PressSequentially)])"
proof -
  let ?rb = "\<lambda>m. if m = PressSequentially \<or> m = Fill then Some ''pass1'' else Some ''pass#1''"
  let ?vis = "\<lambda>s::string. Some True"
  let ?rbt = "\<lambda>s m. if s = ''input[type=\"password\"]''
            then (if m = PressSequentially then Some ''pass1'' else None)
            else Some ''pass#1''"
  note w = fillPasswordField_escalation [of ?rb "''pass#1''" ?vis
      "''input[type=\"password\"]''" "\<lambda>s. ?rb" "tl passwordSelectors" passwordSelectors]
  note wt = fillPasswordField_escalation [of ?rb "''pass#1''" ?vis
      "''input[type=\"password\"]''" ?rbt "tl passwordSelectors" passwordSelectors]
  from w have "fst (fillPasswordField ?rb ''pass#1'') =
      takeWhile (continuesAfter ?rb ''pass#1'') methodOrder @
      take 1 (dropWhile (continuesAfter ?rb ''pass#1'') methodOrder)"
    by (rule conjunct1)
  then have f: "fst (fillPasswordField ?rb ''pass#1'') = [PressSequentially, Fill, KeyboardPerChar]"
    by (simp add: methodOrder_def continuesAfter_def)
  from w have "snd (fillPasswordField ?rb ''pass#1'') =
      ?rb (last (fst (fillPasswordField ?rb ''pass#1'')))"
    by (rule conjunct1 [OF conjunct2])
  then have s: "snd (fillPasswordField ?rb ''pass#1'') = Some ''pass#1''"
    by (simp add: f)
  from w have "?vis ''input[type=\"password\"]'' = Some True \<and>
      snd (fillPasswordField ?rb ''pass#1'') \<noteq> None \<longrightarrow>
      fillPassword ?vis (\<lambda>s. ?rb) ''pass#1''
        (''input[type=\"password\"]'' # tl passwordSelectors) =
      (True, map (Pair ''input[type=\"password\"]'') (fst (fillPasswordField ?rb ''pass#1'')))"
    by (rule conjunct1 [OF conjunct2 [OF conjunct2 [OF conjunct2]]])
  with s have p: "fillPassword ?vis (\<lambda>s. ?rb) ''pass#1''
        (''input[type=\"password\"]'' # tl passwordSelectors) =
      (True, map (Pair ''input[type=\"password\"]'') (fst (fillPasswordField ?rb ''pass#1'')))"
    by simp
  have sel: "''input[type=\"password\"]'' # tl passwordSelectors = passwordSelectors"
    by (simp add: passwordSelectors_def)
  from f s have r1: "fillPasswordField ?rb ''pass#1'' =
      ([PressSequentially, Fill, KeyboardPerChar], Some ''pass#1'')"
    by (simp add: prod_eq_iff)
  from p have r2: "fillPassword ?vis (\<lambda>s. ?rb) ''pass#1'' passwordSelectors =
      (True, [(''input[type=\"password\"]'', PressSequentially),
              (''input[type=\"password\"]'', Fill),
              (''input[type=\"password\"]'', KeyboardPerChar)])"
    unfolding sel f by simp
  have t1: "fillPasswordField (?rbt ''input[type=\"password\"]'') ''pass#1'' =
      ([PressSequentially, Fill], None)"
    by (simp add: fillPasswordField_def escalate_def)
  have t2: "fillPasswordField (?rbt ''input[placeholder*=\"Password\"]'') ''pass#1'' =
      ([PressSequentially], Some ''pass#1'')"
    by (simp add: fillPasswordField_def escalate_def)
  have n1: "\<not> selectorFills ?vis ?rbt ''pass#1'' ''input[type=\"password\"]''"
    unfolding selectorFills_def t1 by simp
  have y2: "selectorFills ?vis ?rbt ''pass#1'' ''input[placeholder*=\"Password\"]''"
    unfolding selectorFills_def t2 by simp
  have m1: "selectorMethods ?vis ?rbt ''pass#1'' ''input[type=\"password\"]'' =
      [(''input[type=\"password\"]'', PressSequentially), (''input[type=\"password\"]'', Fill)]"
    unfolding selectorMethods_def t1 by simp
  have m2: "selectorMethods ?vis ?rbt ''pass#1'' ''input[placeholder*=\"Password\"]'' =
      [(''input[placeholder*=\"Password\"]'', PressSequentially)]"
    unfolding selectorMethods_def t2 by simp
  from wt have "fillPassword ?vis ?rbt ''pass#1'' passwordSelectors =
     (list_ex (selectorFills ?vis ?rbt ''pass#1'') passwordSelectors,
      concat (map (selectorMethods ?vis ?rbt ''pass#1'')
        (takeWhile (Not \<circ> selectorFills ?vis ?rbt ''pass#1'') passwordSelectors @
         take 1 (dropWhile (Not \<circ> selectorFills ?vis ?rbt ''pass#1'') passwordSelectors))))"
    by (rule conjunct2 [OF conjunct2 [OF conjunct2 [OF conjunct2]]])
  then have r3: "fillPassword ?vis ?rbt ''pass#1'' passwordSelectors =
      (True, [(''input[type=\"password\"]'', PressSequentially),
              (''input[type=\"password\"]'', Fill),
              (''input[placeholder*=\"Password\"]'', PressSequentially)])"
    using n1 y2 m1 m2 by (simp add: passwordSelectors_def)
  from r1 r2 r3 show ?thesis by simp
qed

section \<open>Properties of the booking initiation\<close>

lemma tryOtherClasses_none:
  "list_all (\<lambda>className. classButtonCount page className = 0) cs \<Longrightarrow>
   tryOtherClasses page cs = Inr False"
  by (induction cs) simp_all

lemma initiateBooking_noBookingButton:
  "noBookingButton page \<Longrightarrow>
   initiateBooking page =
     (if trainHeadingVisible page then Inr False else Inl (Error noOptionsMessage))"
  by (simp add: noBookingButton_def initiateBooking_def tryOtherClasses_none split: if_splits)

text \<open>
  Claim C7. When no booking button is found, so that nothing is clicked and
  \<open>bookingInitiated\<close> stays false, the real booking test ends with an error of the
  booking-initiation step (\<open>Could not initiate booking\<close>, or \<open>No booking options found
  for any class\<close> when the train heading was absent) and starts neither coach selection nor
  seat selection. More generally, whenever step 4 does not end with \<open>bookingInitiated\<close>
  true, the test fails and no later stage is started.
\<close>

theorem realBooking_halts_without_initiation:
  "(noBookingButton page \<longrightarrow>
      realBooking page handleCoachSelection handleSeatSelection =
        (Inl (Error (if trainHeadingVisible page then notInitiatedMessage else noOptionsMessage)),
         [])) \<and>
   (initiateBooking page \<noteq> Inr True \<longrightarrow>
      (\<exists>e. fst (realBooking page handleCoachSelection handleSeatSelection) = Inl e) \<and>
      snd (realBooking page handleCoachSelection handleSeatSelection) = [])"
proof (intro conjI impI)
  assume "noBookingButton page"
  then show "realBooking page handleCoachSelection handleSeatSelection =
      (Inl (Error (if trainHeadingVisible page then notInitiatedMessage else noOptionsMessage)),
       [])"
    by (simp add: realBooking_def initiateBooking_noBookingButton)
next
  assume n: "initiateBooking page \<noteq> Inr True"
  then show "\<exists>e. fst (realBooking page handleCoachSelection handleSeatSelection) = Inl e"
    by (cases "initiateBooking page") (auto simp: realBooking_def)
next
  assume n: "initiateBooking page \<noteq> Inr True"
  then show "snd (realBooking page handleCoachSelection handleSeatSelection) = []"
    by (cases "initiateBooking page") (auto simp: realBooking_def)
qed

theorem realBooking_halts_without_initiation_witness:
  "realBooking
     \<lparr>trainHeadingVisible = True, classBookButtonVisible = False, allButtonCount = 3,
      buttonCount = 1, classButtonCount = (\<lambda>className. 0), click = (\<lambda>target. None)\<rparr>
     None None = (Inl (Error notInitiatedMessage), []) \<and>
   realBooking
     \<lparr>trainHeadingVisible = False, classBookButtonVisible = False, allButtonCount = 0,
      buttonCount = 0, classButtonCount = (\<lambda>className. 0), click = (\<lambda>target. None)\<rparr>
     None None = (Inl (Error noOptionsMessage), []) \<and>
   snd (realBooking
     \<lparr>trainHeadingVisible = False, classBookButtonVisible = False, allButtonCount = 2,
      buttonCount = 0, classButtonCount = (\<lambda>className. 0),
      click = (\<lambda>target. Some (Error ''Timeout 10000ms exceeded''))\<rparr>
     None None) = []"
proof -
  let ?p1 = "\<lparr>trainHeadingVisible = True, classBookButtonVisible = False, allButtonCount = 3,
      buttonCount = 1, classButtonCount = (\<lambda>className. 0), click = (\<lambda>target. None)\<rparr>"
  let ?p2 = "\<lparr>trainHeadingVisible = False, classBookButtonVisible = False, allButtonCount = 0,
      buttonCount = 0, classButtonCount = (\<lambda>className. 0), click = (\<lambda>target. None)\<rparr>"
  let ?p3 = "\<lparr>trainHeadingVisible = False, classBookButtonVisible = False, allButtonCount = 2,
      buttonCount = 0, classButtonCount = (\<lambda>className. 0),
      click = (\<lambda>target. Some (Error ''Timeout 10000ms exceeded''))\<rparr>"
  have "noBookingButton ?p1" by (simp add: noBookingButton_def)
  with realBooking_halts_without_initiation [of ?p1 None None]
  have a: "realBooking ?p1 None None = (Inl (Error notInitiatedMessage), [])" by simp
  have "noBookingButton ?p2" by (simp add: noBookingButton_def otherClasses_def)
  with realBooking_halts_without_initiation [of ?p2 None None]
  have b: "realBooking ?p2 None None = (Inl (Error noOptionsMessage), [])" by simp
  have "initiateBooking ?p3 \<noteq> Inr True" by (simp add: initiateBooking_def clickToBook_def)
  with realBooking_halts_without_initiation [of ?p3 None None]
  have c: "snd (realBooking ?p3 None None) = []" by simp
  from a b c show ?thesis by simp
qed


section \<open>Properties of the passcode wait\<close>

declare handleSeatSelection_wait.simps [simp del]
declare handlePaymentAndOTP_wait.simps [simp del]

lemma seat_wait_found:
  "t < seatMaxWaitTime \<Longrightarrow> find (visibleAt page t) seatSuccessIndicators = Some indicator \<Longrightarrow>
   handleSeatSelection_wait page t = Success indicator t"
  by (subst handleSeatSelection_wait.simps) simp

lemma seat_wait_next:
  "t < seatMaxWaitTime \<Longrightarrow> find (visibleAt page t) seatSuccessIndicators = None \<Longrightarrow>
   handleSeatSelection_wait page t = handleSeatSelection_wait page (t + 2000)"
  by (subst handleSeatSelection_wait.simps) simp

lemma seat_wait_end:
  "\<not> t < seatMaxWaitTime \<Longrightarrow> handleSeatSelection_wait page t = TimedOut t"
  by (subst handleSeatSelection_wait.simps) simp

lemma seat_wait_skip:
  "\<forall>j<n. find (visibleAt page (t + 2000 * j)) seatSuccessIndicators = None \<Longrightarrow>
   t + 2000 * n \<le> seatMaxWaitTime \<Longrightarrow>
   handleSeatSelection_wait page t = handleSeatSelection_wait page (t + 2000 * n)"
proof (induction n)
  case 0
  show ?case by simp
next
  case (Suc n)
  from Suc.prems have "handleSeatSelection_wait page t =
      handleSeatSelection_wait page (t + 2000 * n)"
    by (intro Suc.IH) simp_all
  also from Suc.prems have "\<dots> = handleSeatSelection_wait page (t + 2000 * n + 2000)"
    by (intro seat_wait_next) simp_all
  finally show ?case by (simp add: add.commute add.left_commute)
qed

lemma pay_wait_entered:
  "t < paymentMaxWaitTime \<Longrightarrow> otpEntered page t \<Longrightarrow>
   handlePaymentAndOTP_wait page t = Proceeded t"
  by (subst handlePaymentAndOTP_wait.simps) simp

lemma pay_wait_found:
  "t < paymentMaxWaitTime \<Longrightarrow> \<not> otpEntered page t \<Longrightarrow>
   find (visibleAt page t) paymentSuccessIndicators = Some indicator \<Longrightarrow>
   handlePaymentAndOTP_wait page t = Success indicator t"
  by (subst handlePaymentAndOTP_wait.simps) simp

lemma pay_wait_next:
  "t < paymentMaxWaitTime \<Longrightarrow> \<not> otpEntered page t \<Longrightarrow>
   find (visibleAt page t) paymentSuccessIndicators = None \<Longrightarrow>
   handlePaymentAndOTP_wait page t = handlePaymentAndOTP_wait page (t + 2000)"
  by (subst handlePaymentAndOTP_wait.simps) simp

lemma pay_wait_end:
  "\<not> t < paymentMaxWaitTime \<Longrightarrow> handlePaymentAndOTP_wait page t = TimedOut t"
  by (subst handlePaymentAndOTP_wait.simps) simp

lemma pay_wait_skip:
  "\<forall>j<n. \<not> otpEntered page (t + 2000 * j) \<and>
      find (visibleAt page (t + 2000 * j)) paymentSuccessIndicators = None \<Longrightarrow>
   t + 2000 * n \<le> paymentMaxWaitTime \<Longrightarrow>
   handlePaymentAndOTP_wait page t = handlePaymentAndOTP_wait page (t + 2000 * n)"
proof (induction n)
  case 0
  show ?case by simp
next
  case (Suc n)
  from Suc.prems have "handlePaymentAndOTP_wait page t =
      handlePaymentAndOTP_wait page (t + 2000 * n)"
    by (intro Suc.IH) simp_all
  also from Suc.prems have "\<dots> = handlePaymentAndOTP_wait page (t + 2000 * n + 2000)"
    by (intro pay_wait_next) simp_all
  finally show ?case by (simp add: add.commute add.left_commute)
qed

text \<open>
  Claim C8 as stated fails for \<open>handlePaymentAndOTP\<close>. On a page where no success
  indicator is ever visible, and where after two seconds the URL no longer contains \<open>otp\<close>
  and the passcode field is gone, the loop ends at the second poll, long before the maximum
  wait.
\<close>

theorem handlePaymentAndOTP_wait_leaves_early_counterexample:
  "handlePaymentAndOTP_wait
     \<lparr>visibleAt = (\<lambda>t indicator. False),
      urlAt = (\<lambda>t. if t < 2000 then ''https://railapp.railway.gov.bd/booking/otp''
                    else ''https://railapp.railway.gov.bd/booking/payment''),
      otpFieldVisibleAt = (\<lambda>t. t < 2000)\<rparr> 0 = Proceeded 2000 \<and>
   Proceeded 2000 \<noteq> TimedOut paymentMaxWaitTime \<and> 2000 < paymentMaxWaitTime"
proof -
  let ?page = "\<lparr>visibleAt = (\<lambda>t indicator. False),
      urlAt = (\<lambda>t. if t < 2000 then ''https://railapp.railway.gov.bd/booking/otp''
                    else ''https://railapp.railway.gov.bd/booking/payment''),
      otpFieldVisibleAt = (\<lambda>t. t < 2000)\<rparr>"
  have "handlePaymentAndOTP_wait ?page 0 = handlePaymentAndOTP_wait ?page (0 + 2000)"
    by (rule pay_wait_next)
      (simp_all add: paymentMaxWaitTime_def otpEntered_def paymentSuccessIndicators_def)
  also have "\<dots> = Proceeded 2000"
    by (simp add: pay_wait_entered paymentMaxWaitTime_def otpEntered_def)
  finally show ?thesis by (simp add: paymentMaxWaitTime_def)
qed

text \<open>
  Claim C8, amended. With polls at elapsed times 0, 2000, 4000, ... ms: the loop of
  \<open>handleSeatSelection\<close> returns at the first poll at which one of its six success
  indicators is visible, when that poll starts before the maximum wait of 10 minutes, and
  otherwise ends at the maximum wait. The loop of \<open>handlePaymentAndOTP\<close> does the same
  with five indicators and a maximum wait of 5 minutes, as long as the URL contains
  \<open>otp\<close> or the passcode field is visible; at the first poll where neither holds it ends
  at once, without a success signal.
\<close>

theorem otp_wait_polling:
  "((\<forall>j<n. find (visibleAt page (2000 * j)) seatSuccessIndicators = None) \<and>
    find (visibleAt page (2000 * n)) seatSuccessIndicators = Some indicator \<and>
    2000 * n < seatMaxWaitTime \<longrightarrow>
      handleSeatSelection_wait page 0 = Success indicator (2000 * n)) \<and>
   ((\<forall>j<300. find (visibleAt page (2000 * j)) seatSuccessIndicators = None) \<longrightarrow>
      handleSeatSelection_wait page 0 = TimedOut seatMaxWaitTime) \<and>
   ((\<forall>j<n. \<not> otpEntered page (2000 * j) \<and>
            find (visibleAt page (2000 * j)) paymentSuccessIndicators = None) \<and>
    \<not> otpEntered page (2000 * n) \<and>
    find (visibleAt page (2000 * n)) paymentSuccessIndicators = Some indicator \<and>
    2000 * n < paymentMaxWaitTime \<longrightarrow>
      handlePaymentAndOTP_wait page 0 = Success indicator (2000 * n)) \<and>
   ((\<forall>j<n. \<not> otpEntered page (2000 * j) \<and>
            find (visibleAt page (2000 * j)) paymentSuccessIndicators = None) \<and>
    otpEntered page (2000 * n) \<and> 2000 * n < paymentMaxWaitTime \<longrightarrow>
      handlePaymentAndOTP_wait page 0 = Proceeded (2000 * n)) \<and>
   ((\<forall>j<150. \<not> otpEntered page (2000 * j) \<and>
            find (visibleAt page (2000 * j)) paymentSuccessIndicators = None) \<longrightarrow>
      handlePaymentAndOTP_wait page 0 = TimedOut paymentMaxWaitTime) \<and>
   seatMaxWaitTime = 600000 \<and> paymentMaxWaitTime = 300000"
proof (intro conjI impI)
  assume a: "(\<forall>j<n. find (visibleAt page (2000 * j)) seatSuccessIndicators = None) \<and>
    find (visibleAt page (2000 * n)) seatSuccessIndicators = Some indicator \<and>
    2000 * n < seatMaxWaitTime"
  then have "handleSeatSelection_wait page 0 = handleSeatSelection_wait page (0 + 2000 * n)"
    by (intro seat_wait_skip) simp_all
  with a show "handleSeatSelection_wait page 0 = Success indicator (2000 * n)"
    by (simp add: seat_wait_found)
next
  assume a: "\<forall>j<300. find (visibleAt page (2000 * j)) seatSuccessIndicators = None"
  then have "handleSeatSelection_wait page 0 = handleSeatSelection_wait page (0 + 2000 * 300)"
    by (intro seat_wait_skip) (simp_all add: seatMaxWaitTime_def)
  then show "handleSeatSelection_wait page 0 = TimedOut seatMaxWaitTime"
    by (simp add: seat_wait_end seatMaxWaitTime_def)
next
  assume a: "(\<forall>j<n. \<not> otpEntered page (2000 * j) \<and>
            find (visibleAt page (2000 * j)) paymentSuccessIndicators = None) \<and>
    \<not> otpEntered page (2000 * n) \<and>
    find (visibleAt page (2000 * n)) paymentSuccessIndicators = Some indicator \<and>
    2000 * n < paymentMaxWaitTime"
  then have "handlePaymentAndOTP_wait page 0 = handlePaymentAndOTP_wait page (0 + 2000 * n)"
    by (intro pay_wait_skip) simp_all
  with a show "handlePaymentAndOTP_wait page 0 = Success indicator (2000 * n)"
    by (simp add: pay_wait_found)
next
  assume a: "(\<forall>j<n. \<not> otpEntered page (2000 * j) \<and>
            find (visibleAt page (2000 * j)) paymentSuccessIndicators = None) \<and>
    otpEntered page (2000 * n) \<and> 2000 * n < paymentMaxWaitTime"
  then have "handlePaymentAndOTP_wait page 0 = handlePaymentAndOTP_wait page (0 + 2000 * n)"
    by (intro pay_wait_skip) simp_all
  with a show "handlePaymentAndOTP_wait page 0 = Proceeded (2000 * n)"
    by (simp add: pay_wait_entered)
next
  assume a: "\<forall>j<150. \<not> otpEntered page (2000 * j) \<and>
            find (visibleAt page (2000 * j)) paymentSuccessIndicators = None"
  then have "handlePaymentAndOTP_wait page 0 = handlePaymentAndOTP_wait page (0 + 2000 * 150)"
    by (intro pay_wait_skip) (simp_all add: paymentMaxWaitTime_def)
  then show "handlePaymentAndOTP_wait page 0 = TimedOut paymentMaxWaitTime"
    by (simp add: pay_wait_end paymentMaxWaitTime_def)
next
  show "seatMaxWaitTime = 600000" by (simp add: seatMaxWaitTime_def)
next
  show "paymentMaxWaitTime = 300000" by (simp add: paymentMaxWaitTime_def)
qed

theorem otp_wait_polling_witness:
  "handleSeatSelection_wait
     \<lparr>visibleAt = (\<lambda>t indicator. indicator = ''text=PNR'' \<and> 6000 \<le> t),
      urlAt = (\<lambda>t. ''https://railapp.railway.gov.bd/booking/otp''),
      otpFieldVisibleAt = (\<lambda>t. True)\<rparr> 0 = Success ''text=PNR'' 6000 \<and>
   handlePaymentAndOTP_wait
     \<lparr>visibleAt = (\<lambda>t indicator. indicator = ''text=PNR'' \<and> 6000 \<le> t),
      urlAt = (\<lambda>t. ''https://railapp.railway.gov.bd/booking/otp''),
      otpFieldVisibleAt = (\<lambda>t. True)\<rparr> 0 = Success ''text=PNR'' 6000 \<and>
   handleSeatSelection_wait
     \<lparr>visibleAt = (\<lambda>t indicator. False),
      urlAt = (\<lambda>t. ''https://railapp.railway.gov.bd/booking/otp''),
      otpFieldVisibleAt = (\<lambda>t. True)\<rparr> 0 = TimedOut 600000 \<and>
   handlePaymentAndOTP_wait
     \<lparr>visibleAt = (\<lambda>t indicator. False),
      urlAt = (\<lambda>t. ''https://railapp.railway.gov.bd/booking/otp''),
      otpFieldVisibleAt = (\<lambda>t. True)\<rparr> 0 = TimedOut 300000 \<and>
   handlePaymentAndOTP_wait
     \<lparr>visibleAt = (\<lambda>t indicator. False),
      urlAt = (\<lambda>t. ''https://railapp.railway.gov.bd/booking/done''),
      otpFieldVisibleAt = (\<lambda>t. t < 4000)\<rparr> 0 = Proceeded 4000"
proof -
  let ?a = "\<lparr>visibleAt = (\<lambda>t indicator. indicator = ''text=PNR'' \<and> (6000::nat) \<le> t),
      urlAt = (\<lambda>t. ''https://railapp.railway.gov.bd/booking/otp''),
      otpFieldVisibleAt = (\<lambda>t. True)\<rparr>"
  let ?b = "\<lparr>visibleAt = (\<lambda>(t::nat) (indicator::string). False),
      urlAt = (\<lambda>t. ''https://railapp.railway.gov.bd/booking/otp''),
      otpFieldVisibleAt = (\<lambda>t. True)\<rparr>"
  let ?d = "\<lparr>visibleAt = (\<lambda>(t::nat) (indicator::string). False),
      urlAt = (\<lambda>t. ''https://railapp.railway.gov.bd/booking/done''),
      otpFieldVisibleAt = (\<lambda>t. t < (4000::nat))\<rparr>"
  have otp: "includes_str ''https://railapp.railway.gov.bd/booking/otp'' ''otp''" by code_simp
  have nootp: "\<not> includes_str ''https://railapp.railway.gov.bd/booking/done'' ''otp''"
    by code_simp
  have a1: "\<forall>j<3. find (visibleAt ?a (2000 * j)) seatSuccessIndicators = None"
    by (simp add: seatSuccessIndicators_def)
  have a2: "find (visibleAt ?a (2000 * 3)) seatSuccessIndicators = Some ''text=PNR''"
    by (simp add: seatSuccessIndicators_def)
  have a3: "\<forall>j<3. \<not> otpEntered ?a (2000 * j) \<and>
      find (visibleAt ?a (2000 * j)) paymentSuccessIndicators = None"
    by (simp add: paymentSuccessIndicators_def otpEntered_def)
  have a4: "find (visibleAt ?a (2000 * 3)) paymentSuccessIndicators = Some ''text=PNR''"
    by (simp add: paymentSuccessIndicators_def)
  have a5: "\<not> otpEntered ?a (2000 * 3)" by (simp add: otpEntered_def)
  have b1: "\<forall>j<300. find (visibleAt ?b (2000 * j)) seatSuccessIndicators = None"
    by (simp add: seatSuccessIndicators_def)
  have b2: "\<forall>j<150. \<not> otpEntered ?b (2000 * j) \<and>
      find (visibleAt ?b (2000 * j)) paymentSuccessIndicators = None"
    by (simp add: paymentSuccessIndicators_def otpEntered_def)
  have d1: "\<forall>j<2. \<not> otpEntered ?d (2000 * j) \<and>
      find (visibleAt ?d (2000 * j)) paymentSuccessIndicators = None"
    by (simp add: paymentSuccessIndicators_def otpEntered_def)
  have d2: "otpEntered ?d (2000 * 2)" by (simp add: otpEntered_def nootp)
  have l1: "2000 * 3 < seatMaxWaitTime" by (simp add: seatMaxWaitTime_def)
  have l2: "2000 * 3 < paymentMaxWaitTime" by (simp add: paymentMaxWaitTime_def)
  have l3: "2000 * 2 < paymentMaxWaitTime" by (simp add: paymentMaxWaitTime_def)
  note wa = otp_wait_polling [of 3 ?a "''text=PNR''"]
  note wb = otp_wait_polling [of 0 ?b "[]"]
  note wd = otp_wait_polling [of 2 ?d "[]"]
  have r1: "handleSeatSelection_wait ?a 0 = Success ''text=PNR'' 6000"
    using wa [THEN conjunct1, THEN mp, OF conjI [OF a1 conjI [OF a2 l1]]] by simp
  have r2: "handlePaymentAndOTP_wait ?a 0 = Success ''text=PNR'' 6000"
    using wa [THEN conjunct2, THEN conjunct2, THEN conjunct1, THEN mp,
        OF conjI [OF a3 conjI [OF a5 conjI [OF a4 l2]]]] by simp
  have r3: "handleSeatSelection_wait ?b 0 = TimedOut 600000"
    using wb [THEN conjunct2, THEN conjunct1, THEN mp, OF b1]
    by (simp add: seatMaxWaitTime_def)
  have r4: "handlePaymentAndOTP_wait ?b 0 = TimedOut 300000"
    using wb [THEN conjunct2, THEN conjunct2, THEN conjunct2, THEN conjunct2, THEN conjunct1,
        THEN mp, OF b2]
    by (simp add: paymentMaxWaitTime_def)
  have r6: "handlePaymentAndOTP_wait ?d 0 = Proceeded 4000"
    using wd [THEN conjunct2, THEN conjunct2, THEN conjunct2, THEN conjunct1, THEN mp,
        OF conjI [OF d1 conjI [OF d2 l3]]] by simp
  from r1 r2 r3 r4 r6 show ?thesis by simp
qed


end
